theory Spec2Isabelle
  imports Main
begin

section \<open>Package discovery: a shallow embedding of \<open>package_discovery.py\<close>\<close>

text \<open>
  The module enriches a package URL with metadata from a chain of providers. Python
  strings are modelled as \<open>string\<close> (lists of 8-bit characters, so the model speaks of
  ASCII identifiers and URLs), an \<open>Optional[str]\<close> attribute as \<open>string option\<close>, a
  raised exception as the left summand of a sum, and the network as explicit parameters
  that give the outcome of each call. Method names lose their leading underscore, which
  an Isabelle name cannot start with.
\<close>

subsection \<open>Python string operations used by the module\<close>

text \<open>\<open>s.startswith(p)\<close>\<close>

definition startswith :: "string \<Rightarrow> string \<Rightarrow> bool" where
  "startswith s p = (take (length p) s = p)"

text \<open>\<open>sub in s\<close> on strings: \<open>sub\<close> occurs in \<open>s\<close> as a contiguous block.\<close>

fun contains :: "string \<Rightarrow> string \<Rightarrow> bool" where
  "contains [] sub = (sub = [])"
| "contains (x # xs) sub = (startswith (x # xs) sub \<or> contains xs sub)"

text \<open>
  \<open>s.split(sep)[0]\<close> for a non-empty separator: the text before the first occurrence of
  \<open>sep\<close>, the whole of \<open>s\<close> when there is none.
\<close>

fun before_first :: "string \<Rightarrow> string \<Rightarrow> string" where
  "before_first sep [] = []"
| "before_first sep (x # xs) =
     (if startswith (x # xs) sep then [] else x # before_first sep xs)"

text \<open>
  \<open>s.split(c)\<close> for a one-character separator: the pieces between the occurrences of
  \<open>c\<close>; there is always at least one piece.
\<close>

fun split_char :: "char \<Rightarrow> string \<Rightarrow> string list" where
  "split_char c [] = [[]]"
| "split_char c (x # xs) =
     (if x = c then [] # split_char c xs
      else (case split_char c xs of
              [] \<Rightarrow> [[x]]
            | w # ws \<Rightarrow> (x # w) # ws))"

text \<open>\<open>sep.join(parts)\<close>\<close>

fun join :: "string \<Rightarrow> string list \<Rightarrow> string" where
  "join sep [] = []"
| "join sep [p] = p"
| "join sep (p # q # ps) = p @ sep @ join sep (q # ps)"

text \<open>
  \<open>s.replace(old, "")\<close> for a non-empty \<open>old\<close>: every occurrence of \<open>old\<close>, found from
  left to right without overlap, is deleted. (The module only calls it with the
  non-empty literals \<open>git+\<close> and \<open>.git\<close>; for an empty \<open>old\<close> the model returns \<open>s\<close>.)
\<close>

function replace_del :: "string \<Rightarrow> string \<Rightarrow> string" where
  "replace_del old [] = []"
| "replace_del old (x # xs) =
     (if old \<noteq> [] \<and> startswith (x # xs) old
      then replace_del old (drop (length old) (x # xs))
      else x # replace_del old xs)"
  by pat_completeness auto
termination
  by (relation "measure (\<lambda>(old, s). length s)") (auto simp: startswith_def)

text \<open>\<open>s.lower()\<close> on ASCII text.\<close>

definition lower_char :: "char \<Rightarrow> char" where
  "lower_char c =
     (case map_of (zip ''ABCDEFGHIJKLMNOPQRSTUVWXYZ'' ''abcdefghijklmnopqrstuvwxyz'') c of
        None \<Rightarrow> c
      | Some d \<Rightarrow> d)"

definition lower :: "string \<Rightarrow> string" where
  "lower s = map lower_char s"

text \<open>\<open>s.lstrip("v")\<close>: every leading character that is in the set \<open>{v}\<close> is dropped.\<close>

definition lstrip_v :: "string \<Rightarrow> string" where
  "lstrip_v s = dropWhile (\<lambda>c. c = CHR ''v'') s"

text \<open>
  Truth value of an \<open>Optional[str]\<close>: \<open>None\<close> and the empty string are false. \<open>a or b\<close>
  is \<open>a\<close> when \<open>a\<close> is true and \<open>b\<close> otherwise.
\<close>

fun truthy :: "string option \<Rightarrow> bool" where
  "truthy None = False"
| "truthy (Some s) = (s \<noteq> [])"

definition py_or :: "string option \<Rightarrow> string option \<Rightarrow> string option" where
  "py_or a b = (if truthy a then a else b)"

subsection \<open>\<open>PackageMetadata\<close>\<close>

record package_metadata =
  purl :: string
  ecosystem :: "string option"
  name :: "string option"
  version :: "string option"
  repo_url :: "string option"
  license :: "string option"
  description :: "string option"
  homepage :: "string option"
  latest_version :: "string option"
  maintainers :: "string list"
  source :: "string option"

text \<open>The constructor \<open>PackageMetadata(purl)\<close>.\<close>

definition PackageMetadata :: "string \<Rightarrow> package_metadata" where
  "PackageMetadata p =
     \<lparr> purl = p, ecosystem = None, name = None, version = None, repo_url = None,
       license = None, description = None, homepage = None, latest_version = None,
       maintainers = [], source = None \<rparr>"

text \<open>The property \<open>is_complete\<close>: \<open>bool(self.ecosystem and self.name and self.repo_url)\<close>.\<close>

definition is_complete :: "package_metadata \<Rightarrow> bool" where
  "is_complete m = (truthy (ecosystem m) \<and> truthy (name m) \<and> truthy (repo_url m))"

subsection \<open>\<open>_parse_purl\<close>\<close>

text \<open>
  The method mutates the record it is given and returns a flag; the model returns the
  flag together with the record as the method leaves it. The version is assigned before
  the segments are counted, so a failing call on a string with an \<open>@\<close> has already
  stored a version.
\<close>

definition parse_purl :: "string \<Rightarrow> package_metadata \<Rightarrow> bool \<times> package_metadata" where
  "parse_purl p metadata =
     (if \<not> startswith p ''pkg:'' then (False, metadata)
      else
        let body0 = drop 4 p;
            has_at = (CHR ''@'' \<in> set body0);
            purl_body = (if has_at then takeWhile (\<lambda>c. c \<noteq> CHR ''@'') body0 else body0);
            m1 = (if has_at
                  then metadata\<lparr>version :=
                         Some (takeWhile (\<lambda>c. c \<noteq> CHR ''#'')
                                (takeWhile (\<lambda>c. c \<noteq> CHR ''?'')
                                  (tl (dropWhile (\<lambda>c. c \<noteq> CHR ''@'') body0))))\<rparr>
                  else metadata);
            parts = split_char CHR ''/'' purl_body
        in if length parts < 2 then (False, m1)
           else
             let m2 = m1\<lparr>ecosystem := Some (hd parts)\<rparr>
             in if length parts = 2 then (True, m2\<lparr>name := Some (parts ! 1)\<rparr>)
                else (True, m2\<lparr>name := Some (join ''/'' (tl parts))\<rparr>))"

subsection \<open>\<open>_merge_metadata\<close>\<close>

text \<open>
  \<open>list(set(base.maintainers + new.maintainers))\<close> removes duplicates and lists the
  members in the iteration order of a Python set, which the language leaves open. The
  order is therefore a parameter \<open>ord\<close> of the model; \<open>set_order ord\<close> says that it
  lists exactly the members of its argument, each once.
\<close>

definition set_order :: "(string list \<Rightarrow> string list) \<Rightarrow> bool" where
  "set_order ord = (\<forall>xs. set (ord xs) = set xs \<and> distinct (ord xs))"

definition merge_metadata ::
  "(string list \<Rightarrow> string list) \<Rightarrow> package_metadata \<Rightarrow> package_metadata \<Rightarrow> package_metadata" where
  "merge_metadata ord base new =
     \<lparr> purl = purl base,
       ecosystem = py_or (ecosystem base) (ecosystem new),
       name = py_or (name base) (name new),
       version = py_or (version base) (version new),
       repo_url = py_or (repo_url base) (repo_url new),
       license = py_or (license base) (license new),
       description = py_or (description base) (description new),
       homepage = py_or (homepage base) (homepage new),
       latest_version = py_or (latest_version base) (latest_version new),
       maintainers = ord (maintainers base @ maintainers new),
       source = py_or (source base) (source new) \<rparr>"

subsection \<open>Providers and the network\<close>

text \<open>
  A fetcher is awaited inside \<open>try\<close>/\<open>except Exception\<close>: it raises, or it returns
  \<open>None\<close> or a record. The outcome depends on the network, so a fetcher is a function
  from the record it is called with to its outcome.
\<close>

datatype fetch_outcome = Raises | Returns "package_metadata option"

type_synonym fetcher = "package_metadata \<Rightarrow> fetch_outcome"

text \<open>
  The call to the release API of the forge, made inside a \<open>try\<close> that catches every
  exception. \<open>ReleaseRaises\<close> stands for any exception raised in that block (connection
  error, timeout, undecodable body, a tag that is not a string). \<open>ReleaseStatus code tag\<close>
  is a response with its status code and the value of
  \<open>release_data.get("tag_name", "")\<close>: \<open>Some t\<close> for a string (the empty string when
  the key is absent), \<open>None\<close> for a JSON null.
\<close>

datatype release_response = ReleaseRaises | ReleaseStatus nat "string option"

text \<open>What \<open>discover\<close> calls on the outside world, in the order of the calls.\<close>

datatype call = GithubReleaseApi string | Provider string

datatype error = ValueError string | AttributeError

text \<open>
  The service object: the optional search key, the iteration order of sets, the release
  API, and the behaviour of its five fetch methods in this run (the tests replace
  them by mocks in the same way).
\<close>

record service =
  serpapi_key :: "string option"
  set_iteration :: "string list \<Rightarrow> string list"
  github_release :: "string \<Rightarrow> release_response"
  deps_dev :: fetcher
  clearlydefined :: fetcher
  purl2src :: fetcher
  upmex :: fetcher
  serpapi :: fetcher

subsection \<open>\<open>discover\<close>: the special cases\<close>

text \<open>
  \<open>pkg:github/owner/repo\<close>: the repository URL is written from the name, then the latest
  release is asked for; nothing that happens in that call leaves the \<open>try\<close> block.
\<close>

definition github_special ::
  "(string \<Rightarrow> release_response) \<Rightarrow> package_metadata \<Rightarrow> package_metadata \<times> call list" where
  "github_special release metadata =
     (if ecosystem metadata = Some ''github'' then
        (case name metadata of
           None \<Rightarrow> (metadata, [])
         | Some n \<Rightarrow>
             if n \<noteq> [] \<and> CHR ''/'' \<in> set n then
               let m1 = metadata\<lparr>repo_url := Some (''https://github.com/'' @ n)\<rparr>;
                   m2 = (case release n of
                           ReleaseRaises \<Rightarrow> m1
                         | ReleaseStatus code tag_name \<Rightarrow>
                             if code = 200 then
                               m1\<lparr>latest_version :=
                                    (case tag_name of
                                       None \<Rightarrow> None
                                     | Some t \<Rightarrow> if t \<noteq> [] then Some (lstrip_v t) else None)\<rparr>
                             else m1)
               in (m2, [GithubReleaseApi n])
             else (metadata, []))
      else (metadata, []))"

text \<open>
  Go modules: a name under \<open>github.com/\<close> or \<open>gitlab.com/\<close> with at least three
  segments gives the repository URL. \<open>metadata.name.startswith\<close> would raise an
  \<open>AttributeError\<close> outside any \<open>try\<close> on a name that is \<open>None\<close>.
\<close>

definition go_repo :: "package_metadata \<Rightarrow> string \<Rightarrow> package_metadata" where
  "go_repo metadata n =
     (let parts = split_char CHR ''/'' n
      in if length parts \<ge> 3
         then metadata\<lparr>repo_url := Some (''https://'' @ join ''/'' (take 3 parts))\<rparr>
         else metadata)"

definition go_special :: "package_metadata \<Rightarrow> error + package_metadata" where
  "go_special metadata =
     (if ecosystem metadata = Some ''golang'' \<or> ecosystem metadata = Some ''go'' then
        (case name metadata of
           None \<Rightarrow> Inl AttributeError
         | Some n \<Rightarrow>
             if startswith n ''github.com/'' then Inr (go_repo metadata n)
             else if startswith n ''gitlab.com/'' then Inr (go_repo metadata n)
             else Inr metadata)
      else Inr metadata)"

subsection \<open>\<open>discover\<close>: the provider chain\<close>

definition sources :: "service \<Rightarrow> (string \<times> fetcher) list" where
  "sources svc =
     [(''deps.dev'', deps_dev svc),
      (''clearlydefined'', clearlydefined svc),
      (''purl2src'', purl2src svc),
      (''upmex'', upmex svc)]
     @ (if truthy (serpapi_key svc) then [(''serpapi'', serpapi svc)] else [])"

text \<open>
  The \<open>for\<close> loop over the sources. It leaves \<open>discover\<close> with a \<open>return\<close> when a
  fetcher's own result is complete, or runs to the end of the list with the accumulated
  record. The second component lists the fetchers that were called.
\<close>

datatype loop_exit = Returned package_metadata | Exhausted package_metadata

fun try_sources ::
  "(string list \<Rightarrow> string list) \<Rightarrow> package_metadata \<Rightarrow> (string \<times> fetcher) list
     \<Rightarrow> loop_exit \<times> string list" where
  "try_sources ord metadata [] = (Exhausted metadata, [])"
| "try_sources ord metadata ((source_name, fetch_func) # rest) =
     (case fetch_func metadata of
        Raises \<Rightarrow>
          (case try_sources ord metadata rest of (e, called) \<Rightarrow> (e, source_name # called))
      | Returns None \<Rightarrow>
          (case try_sources ord metadata rest of (e, called) \<Rightarrow> (e, source_name # called))
      | Returns (Some result) \<Rightarrow>
          if is_complete result
          then (Returned (result\<lparr>source := Some source_name\<rparr>), [source_name])
          else (case try_sources ord (merge_metadata ord metadata result) rest of
                  (e, called) \<Rightarrow> (e, source_name # called)))"

definition missing_fields :: "package_metadata \<Rightarrow> string list" where
  "missing_fields metadata =
     (if \<not> truthy (ecosystem metadata) then [''ecosystem''] else [])
     @ (if \<not> truthy (name metadata) then [''name''] else [])
     @ (if \<not> truthy (repo_url metadata) then [''repo_url''] else [])"

definition incomplete_message :: "string \<Rightarrow> package_metadata \<Rightarrow> string" where
  "incomplete_message p metadata =
     ''Could not discover complete metadata for '' @ p @ ''. '' @
     ''Missing: '' @ join '', '' (missing_fields metadata)"

text \<open>
  \<open>discover(purl, allow_partial)\<close>: the value returned or the exception raised, and the
  outside calls made on the way.
\<close>

definition discover :: "service \<Rightarrow> string \<Rightarrow> bool \<Rightarrow> (error + package_metadata) \<times> call list" where
  "discover svc p allow_partial =
     (case parse_purl p (PackageMetadata p) of
        (False, _) \<Rightarrow> (Inl (ValueError (''Invalid PURL format: '' @ p)), [])
      | (True, m0) \<Rightarrow>
          (case github_special (github_release svc) m0 of
             (m1, c1) \<Rightarrow>
               (case go_special m1 of
                  Inl e \<Rightarrow> (Inl e, c1)
                | Inr m2 \<Rightarrow>
                    (case try_sources (set_iteration svc) m2 (sources svc) of
                       (Returned result, called) \<Rightarrow> (Inr result, c1 @ map Provider called)
                     | (Exhausted m3, called) \<Rightarrow>
                         if \<not> allow_partial \<and> \<not> is_complete m3
                         then (Inl (ValueError (incomplete_message p m3)),
                               c1 @ map Provider called)
                         else (Inr m3, c1 @ map Provider called)))))"

subsection \<open>\<open>_fetch_deps_dev\<close> and the placeholder fetchers\<close>

text \<open>
  The repository link of a version: \<open>git+\<close> and \<open>.git\<close> are deleted with
  \<open>str.replace\<close>, then the URL is cut before each listed path in turn.
\<close>

definition is_repo_link :: "string \<Rightarrow> bool" where
  "is_repo_link url_val =
     (contains (lower url_val) ''github.com'' \<or> contains (lower url_val) ''gitlab.com''
      \<or> contains (lower url_val) ''bitbucket.org'')"

definition cut_paths :: "string \<Rightarrow> string" where
  "cut_paths url =
     fold (\<lambda>suffix cleaned. if contains cleaned suffix then before_first suffix cleaned else cleaned)
       [''/issues'', ''/pulls'', ''/wiki'', ''/tree'', ''/blob''] url"

definition clean_repo_url :: "string \<Rightarrow> string" where
  "clean_repo_url url_val = cut_paths (replace_del ''.git'' (replace_del ''git+'' url_val))"

text \<open>
  The loop over \<open>version_data["links"]\<close>; a link is the pair of
  \<open>link.get("label", "")\<close> and \<open>link.get("url", "")\<close>.
\<close>

fun process_links :: "package_metadata \<Rightarrow> (string \<times> string) list \<Rightarrow> package_metadata" where
  "process_links result [] = result"
| "process_links result ((label, url_val) # links) =
     process_links
       (if is_repo_link url_val then
          (if \<not> truthy (repo_url result)
           then result\<lparr>repo_url := Some (clean_repo_url url_val)\<rparr>
           else result)
        else if contains (lower label) ''homepage'' \<and> \<not> truthy (homepage result)
        then result\<lparr>homepage := Some url_val\<rparr>
        else result)
       links"

text \<open>
  An HTTP GET with its JSON body decoded: it raises, or answers with a status code and
  a body. The body of the package request is the list of the version strings under
  \<open>versions\<close> (\<open>None\<close> when the key is absent); the body of the version request is the
  links and the licenses (each \<open>None\<close> when its key is absent). The requests are keyed by
  what the URL is built from: system, package name, and version.
\<close>

datatype 'a http = HttpRaises | HttpStatus nat 'a

record version_data =
  vd_links :: "(string \<times> string) list option"
  vd_licenses :: "string list option"

definition system_map :: "string \<Rightarrow> string option" where
  "system_map = map_of
     [(''npm'', ''npm''), (''pypi'', ''pypi''), (''maven'', ''maven''), (''golang'', ''go''),
      (''cargo'', ''cargo''), (''go'', ''go''), (''nuget'', ''nuget'')]"

definition apply_version_data :: "package_metadata \<Rightarrow> version_data \<Rightarrow> package_metadata" where
  "apply_version_data result vd =
     (let r1 = (case vd_links vd of None \<Rightarrow> result | Some links \<Rightarrow> process_links result links)
      in case vd_licenses vd of
           None \<Rightarrow> r1
         | Some [] \<Rightarrow> r1
         | Some (l # _) \<Rightarrow> r1\<lparr>license := Some l\<rparr>)"

definition fetch_deps_dev ::
  "(string \<Rightarrow> string \<Rightarrow> string list option http) \<Rightarrow>
   (string \<Rightarrow> string \<Rightarrow> string \<Rightarrow> version_data http) \<Rightarrow> fetcher" where
  "fetch_deps_dev get_package get_version metadata =
     (case (case ecosystem metadata of None \<Rightarrow> None | Some e \<Rightarrow> system_map e) of
        None \<Rightarrow> Returns None
      | Some system \<Rightarrow>
          (case name metadata of
             None \<Rightarrow> Raises
           | Some n \<Rightarrow>
               let package_name =
                     (if ecosystem metadata = Some ''maven''
                      then map (\<lambda>c. if c = CHR ''/'' then CHR '':'' else c) n else n)
               in case get_package system package_name of
                    HttpRaises \<Rightarrow> Raises
                  | HttpStatus code versions \<Rightarrow>
                      if code \<noteq> 200 then Returns None
                      else
                        let r0 = (PackageMetadata (purl metadata))
                                   \<lparr>ecosystem := ecosystem metadata, name := name metadata,
                                    version := version metadata\<rparr>;
                            result = (case versions of
                                        None \<Rightarrow> r0
                                      | Some vs \<Rightarrow>
                                          if vs \<noteq> [] then r0\<lparr>latest_version := Some (last vs)\<rparr>
                                          else r0);
                            v = (case py_or (version metadata)
                                        (py_or (latest_version result) (Some [])) of
                                   None \<Rightarrow> [] | Some s \<Rightarrow> s)
                        in case get_version system package_name v of
                             HttpRaises \<Rightarrow> Returns (Some result)
                           | HttpStatus vcode vd \<Rightarrow>
                               if vcode = 200 then Returns (Some (apply_version_data result vd))
                               else Returns (Some result)))"

text \<open>\<open>_fetch_purl2src\<close> and \<open>_fetch_upmex\<close> return \<open>None\<close> whatever they are given.\<close>

definition fetch_purl2src :: fetcher where
  "fetch_purl2src metadata = Returns None"

definition fetch_upmex :: fetcher where
  "fetch_upmex metadata = Returns None"

subsection \<open>The chain as the specification describes it\<close>

text \<open>
  The specification speaks of the contribution of a provider and of the accumulated
  record. The four definitions below say what these words mean without running the
  loop, so that the loop of the code (\<open>try_sources\<close>) can be compared with them. A
  contribution is complete when the fetcher returned a record and that record is
  complete.
\<close>

definition complete_contribution :: "fetch_outcome \<Rightarrow> bool" where
  "complete_contribution outcome =
     (case outcome of
        Raises \<Rightarrow> False
      | Returns None \<Rightarrow> False
      | Returns (Some result) \<Rightarrow> is_complete result)"

text \<open>
  What a contribution that does not end the chain leaves of the accumulated record: a
  fetcher that raised or returned \<open>None\<close> leaves it as it is, a record is merged in.
\<close>

definition absorb ::
  "(string list \<Rightarrow> string list) \<Rightarrow> package_metadata \<Rightarrow> fetch_outcome \<Rightarrow> package_metadata" where
  "absorb ord acc outcome =
     (case outcome of
        Raises \<Rightarrow> acc
      | Returns None \<Rightarrow> acc
      | Returns (Some result) \<Rightarrow> merge_metadata ord acc result)"

text \<open>
  The accumulated record after the given providers, each called with the record
  accumulated before it.
\<close>

fun accumulated ::
  "(string list \<Rightarrow> string list) \<Rightarrow> package_metadata \<Rightarrow> (string \<times> fetcher) list
     \<Rightarrow> package_metadata" where
  "accumulated ord acc [] = acc"
| "accumulated ord acc ((source_name, fetch_func) # rest) =
     accumulated ord (absorb ord acc (fetch_func acc)) rest"

text \<open>
  None of the given providers, each called with the record accumulated before it, gave a
  complete contribution.
\<close>

fun none_complete ::
  "(string list \<Rightarrow> string list) \<Rightarrow> package_metadata \<Rightarrow> (string \<times> fetcher) list \<Rightarrow> bool" where
  "none_complete ord acc [] = True"
| "none_complete ord acc ((source_name, fetch_func) # rest) =
     (\<not> complete_contribution (fetch_func acc)
      \<and> none_complete ord (absorb ord acc (fetch_func acc)) rest)"

subsection \<open>Services used to run the model on concrete requests\<close>

text \<open>
  The test suite drives \<open>discover\<close> with fetchers replaced by mocks; the services below
  do the same. In \<open>quiet_service\<close> no provider has data: the primary source answers 404,
  the others return \<open>None\<close>, and the release API cannot be reached; a search key is
  configured. In \<open>fallback_service\<close> the primary source raises and the second provider
  returns a complete record.
\<close>

definition quiet_service :: service where
  "quiet_service =
     \<lparr> serpapi_key = Some ''key'', set_iteration = remdups,
       github_release = (\<lambda>n. ReleaseRaises),
       deps_dev = fetch_deps_dev (\<lambda>system pkg. HttpStatus 404 None) (\<lambda>system pkg v. HttpRaises),
       clearlydefined = (\<lambda>metadata. Returns None),
       purl2src = fetch_purl2src, upmex = fetch_upmex,
       serpapi = (\<lambda>metadata. Returns None) \<rparr>"

definition express_record :: package_metadata where
  "express_record =
     (PackageMetadata ''pkg:npm/express'')
       \<lparr>ecosystem := Some ''npm'', name := Some ''express'',
        repo_url := Some ''https://github.com/expressjs/express''\<rparr>"

definition fallback_service :: service where
  "fallback_service =
     quiet_service\<lparr>serpapi_key := None, deps_dev := (\<lambda>metadata. Raises),
                   clearlydefined := (\<lambda>metadata. Returns (Some express_record))\<rparr>"

text \<open>
  In \<open>express_service\<close> the primary source knows \<open>express\<close>: latest version \<open>4.18.2\<close>,
  one repository link and the license \<open>MIT\<close>.
\<close>

definition express_service :: service where
  "express_service =
     quiet_service\<lparr>deps_dev :=
        fetch_deps_dev
          (\<lambda>system pkg. HttpStatus 200 (Some [''4.18.0'', ''4.18.2'']))
          (\<lambda>system pkg v. HttpStatus 200
             \<lparr>vd_links = Some [(''SOURCE_REPO'', ''git+https://github.com/expressjs/express.git'')],
              vd_licenses = Some [''MIT'']\<rparr>)\<rparr>"

section \<open>Properties\<close>

subsection \<open>Splitting and joining\<close>

lemma split_char_not_Nil: "split_char c s \<noteq> []"
  by (induction s) (auto split: list.splits)

lemma split_char_none: "c \<notin> set s \<Longrightarrow> split_char c s = [s]"
  by (induction s) auto

lemma split_char_append:
  "c \<notin> set a \<Longrightarrow> split_char c (a @ c # b) = a # split_char c b"
  by (induction a) auto

lemma length_split_char: "length (split_char c s) = Suc (length (filter (\<lambda>x. x = c) s))"
  by (induction s) (auto split: list.splits)

lemma split_char_short: "(length (split_char c s) < 2) = (c \<notin> set s)"
  by (auto simp add: length_split_char filter_empty_conv)

lemma join_split_char: "join [c] (split_char c s) = s"
proof (induction s)
  case Nil
  show ?case by simp
next
  case (Cons x xs)
  show ?case
  proof (cases "x = c")
    case True
    obtain w ws where "split_char c xs = w # ws"
      using split_char_not_Nil by (cases "split_char c xs") auto
    with Cons True show ?thesis by simp
  next
    case False
    obtain w ws where ws: "split_char c xs = w # ws"
      using split_char_not_Nil by (cases "split_char c xs") auto
    with Cons False show ?thesis by (cases ws) auto
  qed
qed

lemma split_char_join:
  "segs \<noteq> [] \<Longrightarrow> \<forall>s\<in>set segs. c \<notin> set s \<Longrightarrow> split_char c (join [c] segs) = segs"
proof (induction segs)
  case Nil
  then show ?case by simp
next
  case (Cons p ps)
  show ?case
  proof (cases ps)
    case Nil
    with Cons.prems show ?thesis by (simp add: split_char_none)
  next
    case (Cons q qs)
    with Cons.IH Cons.prems have "split_char c (join [c] ps) = ps" by simp
    moreover have "c \<notin> set p" using Cons.prems by simp
    ultimately show ?thesis using Cons by (simp add: split_char_append)
  qed
qed

lemma set_join: "set (join sep segs) \<subseteq> set sep \<union> \<Union> (set ` set segs)"
  by (induction sep segs rule: join.induct) auto

lemma startswith_append [simp]: "startswith (p @ s) p"
  by (simp add: startswith_def)

lemma join_no_char:
  "c \<notin> set sep \<Longrightarrow> \<forall>s\<in>set segs. c \<notin> set s \<Longrightarrow> c \<notin> set (join sep segs)"
  using set_join[of sep segs] by auto

lemma parse_purl_plain:
  assumes "CHR ''@'' \<notin> set body" and "split_char CHR ''/'' body = e # n # rest"
  shows "parse_purl (''pkg:'' @ body) m =
           (True, m\<lparr>ecosystem := Some e, name := Some (join ''/'' (n # rest))\<rparr>)"
  using assms by (cases rest) (simp_all add: parse_purl_def Let_def startswith_def)

lemma parse_purl_versioned:
  assumes "CHR ''@'' \<notin> set body" and "split_char CHR ''/'' body = e # n # rest"
  shows "parse_purl (''pkg:'' @ body @ CHR ''@'' # v) m =
           (True, m\<lparr>version := Some (takeWhile (\<lambda>c. c \<noteq> CHR ''#'') (takeWhile (\<lambda>c. c \<noteq> CHR ''?'') v)),
                    ecosystem := Some e, name := Some (join ''/'' (n # rest))\<rparr>)"
proof -
  have t: "takeWhile (\<lambda>c. c \<noteq> CHR ''@'') (body @ CHR ''@'' # v) = body"
    using assms(1) by (induction body) auto
  have d: "dropWhile (\<lambda>c. c \<noteq> CHR ''@'') (body @ CHR ''@'' # v) = CHR ''@'' # v"
    using assms(1) by (induction body) auto
  show ?thesis
    using assms(2) by (cases rest) (simp_all add: parse_purl_def Let_def startswith_def t d)
qed

subsection \<open>The parser on well-formed identifiers\<close>

text \<open>
  Claim C8. Let the segments \<open>E\<close>, \<open>N\<close> and those of \<open>rest\<close> contain neither \<open>/\<close> nor
  \<open>@\<close>. Parsing the two-segment identifier \<open>pkg:E/N\<close> succeeds with ecosystem \<open>E\<close>, name
  \<open>N\<close> and no version. Parsing an identifier with more segments succeeds with the first
  segment as ecosystem and all the remaining segments, joined again with \<open>/\<close>, as the
  name; a version suffix \<open>@v\<close> leaves ecosystem and name as they are.
\<close>

theorem parse_purl_segments:
  assumes "\<forall>s\<in>set (E # N # rest). CHR ''/'' \<notin> set s \<and> CHR ''@'' \<notin> set s"
  shows "parse_purl (''pkg:'' @ E @ ''/'' @ N) (PackageMetadata p) =
           (True, (PackageMetadata p)\<lparr>ecosystem := Some E, name := Some N\<rparr>)
       \<and> version (snd (parse_purl (''pkg:'' @ E @ ''/'' @ N) (PackageMetadata p))) = None
       \<and> parse_purl (''pkg:'' @ join ''/'' (E # N # rest)) m =
           (True, m\<lparr>ecosystem := Some E, name := Some (join ''/'' (N # rest))\<rparr>)
       \<and> parse_purl (''pkg:'' @ join ''/'' (E # N # rest) @ CHR ''@'' # v) m =
           (True, m\<lparr>version := Some (takeWhile (\<lambda>c. c \<noteq> CHR ''#'')
                                       (takeWhile (\<lambda>c. c \<noteq> CHR ''?'') v)),
                    ecosystem := Some E, name := Some (join ''/'' (N # rest))\<rparr>)"
proof -
  have no_at: "CHR ''@'' \<notin> set (join ''/'' (E # N # rest))"
    using assms by (intro join_no_char) auto
  have sp: "split_char CHR ''/'' (join ''/'' (E # N # rest)) = E # N # rest"
    using assms by (intro split_char_join) auto
  have no_at2: "CHR ''@'' \<notin> set (join ''/'' [E, N])"
    using assms by (intro join_no_char) auto
  have sp2: "split_char CHR ''/'' (join ''/'' [E, N]) = [E, N]"
    using assms by (intro split_char_join) auto
  have two: "parse_purl (''pkg:'' @ E @ ''/'' @ N) (PackageMetadata p) =
           (True, (PackageMetadata p)\<lparr>ecosystem := Some E, name := Some N\<rparr>)"
    using parse_purl_plain[OF no_at2 sp2, of "PackageMetadata p"] by simp
  have v: "version (snd (parse_purl (''pkg:'' @ E @ ''/'' @ N) (PackageMetadata p))) = None"
    unfolding two by (simp add: PackageMetadata_def)
  show ?thesis
    using two v parse_purl_plain[OF no_at sp, of m] parse_purl_versioned[OF no_at sp, of v m]
    by simp
qed

theorem parse_purl_segments_witness:
  "parse_purl ''pkg:maven/org.springframework.boot/spring-boot-starter'' (PackageMetadata ''q'') =
     (True, (PackageMetadata ''q'')\<lparr>ecosystem := Some ''maven'',
              name := Some ''org.springframework.boot/spring-boot-starter''\<rparr>)
   \<and> parse_purl ''pkg:golang/github.com/gin-gonic/gin@v1.9.0'' (PackageMetadata ''q'') =
     (True, (PackageMetadata ''q'')\<lparr>version := Some ''v1.9.0'', ecosystem := Some ''golang'',
              name := Some ''github.com/gin-gonic/gin''\<rparr>)"
  using parse_purl_segments[of "''maven''" "''org.springframework.boot''" "[''spring-boot-starter'']"
          "''p''" "PackageMetadata ''q''" "[]"]
        parse_purl_segments[of "''golang''" "''github.com''" "[''gin-gonic'', ''gin'']"
          "''p''" "PackageMetadata ''q''" "''v1.9.0''"]
  by simp

subsection \<open>When parsing fails\<close>

lemma takeWhile_neq_id: "c \<notin> set s \<Longrightarrow> takeWhile (\<lambda>x. x \<noteq> c) s = s"
  by (induction s) auto

lemma fst_parse_purl:
  "fst (parse_purl p m) =
     (startswith p ''pkg:''
      \<and> CHR ''/'' \<in> set (takeWhile (\<lambda>c. c \<noteq> CHR ''@'') (drop 4 p)))"
  by (cases "CHR ''@'' \<in> set (drop 4 p)")
     (simp_all add: parse_purl_def Let_def split_char_short takeWhile_neq_id)

text \<open>
  Claim C3, as stated, says that parsing fails exactly when the scheme prefix is missing
  or the text after the scheme has fewer than two \<open>/\<close>-separated segments. The string
  \<open>pkg:a@b/c\<close> starts with the scheme and has two segments after it, and parsing fails:
  the version is cut off at the first \<open>@\<close> before the segments are counted, and \<open>a\<close>
  alone is one segment.
\<close>

theorem parse_purl_fails_counterexample:
  "startswith ''pkg:a@b/c'' ''pkg:''
   \<and> length (split_char CHR ''/'' (drop 4 ''pkg:a@b/c'')) = 2
   \<and> fst (parse_purl ''pkg:a@b/c'' (PackageMetadata ''pkg:a@b/c'')) = False"
  by (simp add: parse_purl_def startswith_def)

text \<open>
  Claim C3, amended. Parsing fails exactly when the string does not start with the
  scheme prefix or the text between the scheme and the first \<open>@\<close> (the whole rest when
  there is no \<open>@\<close>) has fewer than two \<open>/\<close>-separated segments. Whenever parsing fails,
  \<open>discover\<close> raises a \<open>ValueError\<close> whose message names the input, and has made no call
  to the outside.
\<close>

theorem parse_purl_fails_iff:
  "(fst (parse_purl p m) = False) =
     (\<not> startswith p ''pkg:''
      \<or> length (split_char CHR ''/'' (takeWhile (\<lambda>c. c \<noteq> CHR ''@'') (drop 4 p))) < 2)
   \<and> (fst (parse_purl p (PackageMetadata p)) = False \<longrightarrow>
        discover svc p allow_partial = (Inl (ValueError (''Invalid PURL format: '' @ p)), []))"
proof -
  have "fst (parse_purl p (PackageMetadata p)) = False \<Longrightarrow>
        discover svc p allow_partial = (Inl (ValueError (''Invalid PURL format: '' @ p)), [])"
    by (cases "parse_purl p (PackageMetadata p)") (simp add: discover_def)
  then show ?thesis
    by (simp add: fst_parse_purl split_char_short)
qed

theorem parse_purl_fails_iff_witness:
  "fst (parse_purl ''npm/express'' (PackageMetadata ''npm/express'')) = False
   \<and> \<not> startswith ''npm/express'' ''pkg:''
   \<and> discover quiet_service ''npm/express'' False =
       (Inl (ValueError ''Invalid PURL format: npm/express''), [])
   \<and> fst (parse_purl ''pkg:npm'' (PackageMetadata ''pkg:npm'')) = False
   \<and> discover quiet_service ''pkg:npm'' False =
       (Inl (ValueError ''Invalid PURL format: pkg:npm''), [])"
proof -
  have a: "\<not> startswith ''npm/express'' ''pkg:''"
    by (simp add: startswith_def)
  have b: "length (split_char CHR ''/'' (takeWhile (\<lambda>c. c \<noteq> CHR ''@'') (drop 4 ''pkg:npm''))) < 2"
    by simp
  show ?thesis
    using a b
      parse_purl_fails_iff[of "''npm/express''" "PackageMetadata ''npm/express''" quiet_service False]
      parse_purl_fails_iff[of "''pkg:npm''" "PackageMetadata ''pkg:npm''" quiet_service False]
    by simp
qed

subsection \<open>Qualifiers, subpaths and \<open>@\<close> in names\<close>

text \<open>
  Claim C7 says that the \<open>?...\<close> and \<open>#...\<close> parts of an identifier end up in neither
  the name nor the version. The parser removes them from the version only (lemma
  \<open>parse_purl_versioned\<close>); on an identifier without a version they stay in the name.
  The evaluation below is the code on \<open>pkg:npm/express?arch=x86#src\<close>.
\<close>

theorem parse_purl_keeps_qualifiers_in_name:
  "parse_purl ''pkg:npm/express?arch=x86#src'' (PackageMetadata ''pkg:npm/express?arch=x86#src'') =
     (True, (PackageMetadata ''pkg:npm/express?arch=x86#src'')
              \<lparr>ecosystem := Some ''npm'', name := Some ''express?arch=x86#src''\<rparr>)"
  by (simp add: parse_purl_def startswith_def)

lemma takeWhile_append_sep:
  "c \<notin> set a \<Longrightarrow> takeWhile (\<lambda>x. x \<noteq> c) (a @ b) = a @ takeWhile (\<lambda>x. x \<noteq> c) b"
  by (induction a) auto

lemma dropWhile_append_sep:
  "c \<notin> set a \<Longrightarrow> dropWhile (\<lambda>x. x \<noteq> c) (a @ b) = dropWhile (\<lambda>x. x \<noteq> c) b"
  by (induction a) auto

text \<open>
  Claim C10, as stated, says that every identifier whose name contains an \<open>@\<close> is parsed
  with an empty name. In \<open>pkg:generic/user@host/repo@1.0\<close> the name contains an \<open>@\<close>, and
  the parser reports the name \<open>user\<close>.
\<close>

theorem parse_purl_at_counterexample:
  "CHR ''@'' \<in> set ''user@host/repo@1.0''
   \<and> parse_purl ''pkg:generic/user@host/repo@1.0'' (PackageMetadata ''pkg:generic/user@host/repo@1.0'') =
     (True, (PackageMetadata ''pkg:generic/user@host/repo@1.0'')
              \<lparr>version := Some ''host/repo@1.0'', ecosystem := Some ''generic'',
               name := Some ''user''\<rparr>)"
  by (simp add: parse_purl_def startswith_def)

text \<open>
  Claim C10, amended. The version is split off at the first \<open>@\<close> after the scheme, before
  ecosystem and name are separated. So for an identifier \<open>pkg:E/N\<close> whose name \<open>N\<close>
  contains an \<open>@\<close> (with \<open>E\<close> free of \<open>/\<close> and \<open>@\<close>), parsing reports success, the name is
  the text of \<open>N\<close> before its first \<open>@\<close>, and the version is the text after that \<open>@\<close>, cut
  at the first \<open>?\<close> and then at the first \<open>#\<close>. The name is empty exactly when \<open>N\<close> starts
  with \<open>@\<close>, as in \<open>pkg:npm/@scope/pkg\<close>.
\<close>

theorem parse_purl_at_in_name:
  assumes "CHR ''/'' \<notin> set E" and "CHR ''@'' \<notin> set E" and "CHR ''@'' \<in> set N"
  shows "parse_purl (''pkg:'' @ E @ ''/'' @ N) m =
           (True, m\<lparr>version := Some (takeWhile (\<lambda>c. c \<noteq> CHR ''#'')
                                       (takeWhile (\<lambda>c. c \<noteq> CHR ''?'')
                                         (tl (dropWhile (\<lambda>c. c \<noteq> CHR ''@'') N)))),
                    ecosystem := Some E,
                    name := Some (takeWhile (\<lambda>c. c \<noteq> CHR ''@'') N)\<rparr>)
       \<and> ((takeWhile (\<lambda>c. c \<noteq> CHR ''@'') N = []) = (hd N = CHR ''@''))"
proof -
  let ?N0 = "takeWhile (\<lambda>c. c \<noteq> CHR ''@'') N"
  have E_sl: "CHR ''@'' \<notin> set (E @ ''/'')" using assms(2) by simp
  have tk: "takeWhile (\<lambda>c. c \<noteq> CHR ''@'') (E @ CHR ''/'' # N) = E @ CHR ''/'' # ?N0"
    using takeWhile_append_sep[OF E_sl, of N] by simp
  have dr: "dropWhile (\<lambda>c. c \<noteq> CHR ''@'') (E @ CHR ''/'' # N) = dropWhile (\<lambda>c. c \<noteq> CHR ''@'') N"
    using dropWhile_append_sep[OF E_sl, of N] by simp
  obtain w ws where sp: "split_char CHR ''/'' ?N0 = w # ws"
    using split_char_not_Nil by (cases "split_char CHR ''/'' ?N0") auto
  have parts: "split_char CHR ''/'' (E @ CHR ''/'' # ?N0) = E # w # ws"
    using split_char_append[OF assms(1), of ?N0] sp by simp
  have jn: "join ''/'' (w # ws) = ?N0"
    using join_split_char[of "CHR ''/''" ?N0] sp by simp
  have main: "parse_purl (''pkg:'' @ E @ ''/'' @ N) m =
           (True, m\<lparr>version := Some (takeWhile (\<lambda>c. c \<noteq> CHR ''#'')
                                       (takeWhile (\<lambda>c. c \<noteq> CHR ''?'')
                                         (tl (dropWhile (\<lambda>c. c \<noteq> CHR ''@'') N)))),
                    ecosystem := Some E,
                    name := Some ?N0\<rparr>)"
  proof (cases ws)
    case Nil
    with jn have "w = ?N0" by simp
    with Nil show ?thesis
      using assms(3) parts by (simp add: parse_purl_def Let_def startswith_def tk dr)
  next
    case (Cons a list)
    then show ?thesis
      using assms(3) parts jn by (simp add: parse_purl_def Let_def startswith_def tk dr)
  qed
  have emp: "(?N0 = []) = (hd N = CHR ''@'')"
    using assms(3) by (cases N) auto
  show ?thesis using main emp by blast
qed

theorem parse_purl_at_in_name_witness:
  "parse_purl ''pkg:npm/@scope/pkg'' (PackageMetadata ''pkg:npm/@scope/pkg'') =
     (True, (PackageMetadata ''pkg:npm/@scope/pkg'')
              \<lparr>version := Some ''scope/pkg'', ecosystem := Some ''npm'', name := Some []\<rparr>)"
proof -
  have h: "CHR ''/'' \<notin> set ''npm''" "CHR ''@'' \<notin> set ''npm''" "CHR ''@'' \<in> set ''@scope/pkg''"
    by simp_all
  show ?thesis
    using parse_purl_at_in_name[OF h, of "PackageMetadata ''pkg:npm/@scope/pkg''"] by simp
qed

subsection \<open>The provider chain\<close>

lemma try_sources_exhausted_called:
  "try_sources ord m srcs = (Exhausted m', called) \<Longrightarrow> called = map fst srcs"
proof (induction srcs arbitrary: m called)
  case Nil
  then show ?case by simp
next
  case (Cons a srcs)
  obtain n f where a: "a = (n, f)" by (cases a)
  show ?case
  proof (cases "f m")
    case Raises
    with Cons a show ?thesis by (auto split: prod.splits)
  next
    case (Returns r)
    show ?thesis
    proof (cases r)
      case None
      with Cons a Returns show ?thesis by (auto split: prod.splits)
    next
      case (Some res)
      with Cons a Returns show ?thesis by (auto split: prod.splits if_splits)
    qed
  qed
qed

lemma try_sources_append:
  "try_sources ord m pre = (Exhausted m', called) \<Longrightarrow>
   try_sources ord m (pre @ rest) =
     (fst (try_sources ord m' rest), called @ snd (try_sources ord m' rest))"
proof (induction pre arbitrary: m called)
  case Nil
  then show ?case by simp
next
  case (Cons a pre)
  obtain n f where a: "a = (n, f)" by (cases a)
  show ?case
  proof (cases "f m")
    case Raises
    with Cons a show ?thesis by (auto split: prod.splits)
  next
    case (Returns r)
    show ?thesis
    proof (cases r)
      case None
      with Cons a Returns show ?thesis by (auto split: prod.splits)
    next
      case (Some res)
      with Cons a Returns show ?thesis by (auto split: prod.splits if_splits)
    qed
  qed
qed

lemma missing_fields_mem:
  "(''ecosystem'' \<in> set (missing_fields m)) = (\<not> truthy (ecosystem m))"
  "(''name'' \<in> set (missing_fields m)) = (\<not> truthy (name m))"
  "(''repo_url'' \<in> set (missing_fields m)) = (\<not> truthy (repo_url m))"
  "set (missing_fields m) \<subseteq> {''ecosystem'', ''name'', ''repo_url''}"
  by (auto simp: missing_fields_def)

text \<open>
  Claim C1. Suppose the request parses and passes the special cases, the providers
  \<open>pre\<close> tried first leave the loop running (each failed, had nothing, or gave an
  incomplete record that was merged), and the next provider returns a record that is
  itself complete. Then \<open>discover\<close> returns that record with \<open>source\<close> set to the name of
  that provider, and the fetchers called are those of \<open>pre\<close> and this one: none of the
  providers \<open>post\<close> after it is called. With \<open>pre\<close> the first provider alone, the source
  of the record returned is the name of the second provider.
\<close>

theorem discover_returns_first_complete:
  assumes "parse_purl p (PackageMetadata p) = (True, m0)"
    and "github_special (github_release svc) m0 = (m1, c1)"
    and "go_special m1 = Inr m2"
    and "sources svc = pre @ (source_name, fetch_func) # post"
    and "try_sources (set_iteration svc) m2 pre = (Exhausted m3, called)"
    and "fetch_func m3 = Returns (Some result)"
    and "is_complete result"
  shows "discover svc p allow_partial =
           (Inr (result\<lparr>source := Some source_name\<rparr>),
            c1 @ map Provider (map fst pre @ [source_name]))"
proof -
  have "try_sources (set_iteration svc) m3 ((source_name, fetch_func) # post) =
          (Returned (result\<lparr>source := Some source_name\<rparr>), [source_name])"
    using assms(6,7) by simp
  then have "try_sources (set_iteration svc) m2 (sources svc) =
          (Returned (result\<lparr>source := Some source_name\<rparr>), called @ [source_name])"
    using try_sources_append[OF assms(5), of "(source_name, fetch_func) # post"] assms(4)
    by simp
  moreover have "called = map fst pre"
    using try_sources_exhausted_called[OF assms(5)] .
  ultimately show ?thesis
    using assms(1,2,3) by (simp add: discover_def)
qed

theorem discover_returns_first_complete_witness:
  "discover fallback_service ''pkg:npm/express'' False =
     (Inr (express_record\<lparr>source := Some ''clearlydefined''\<rparr>),
      [Provider ''deps.dev'', Provider ''clearlydefined''])"
proof -
  let ?M = "(PackageMetadata ''pkg:npm/express'')\<lparr>ecosystem := Some ''npm'', name := Some ''express''\<rparr>"
  have h1: "parse_purl ''pkg:npm/express'' (PackageMetadata ''pkg:npm/express'') = (True, ?M)"
    by (simp add: parse_purl_def startswith_def)
  have h2: "github_special (github_release fallback_service) ?M = (?M, [])"
    by (simp add: github_special_def)
  have h3: "go_special ?M = Inr ?M"
    by (simp add: go_special_def)
  have h4: "sources fallback_service =
              [(''deps.dev'', deps_dev fallback_service)]
              @ (''clearlydefined'', clearlydefined fallback_service)
                # [(''purl2src'', purl2src fallback_service), (''upmex'', upmex fallback_service)]"
    by (simp add: sources_def fallback_service_def)
  have h5: "try_sources (set_iteration fallback_service) ?M
              [(''deps.dev'', deps_dev fallback_service)] = (Exhausted ?M, [''deps.dev''])"
    by (simp add: fallback_service_def)
  have h6: "clearlydefined fallback_service ?M = Returns (Some express_record)"
    by (simp add: fallback_service_def)
  have h7: "is_complete express_record"
    by (simp add: is_complete_def express_record_def)
  show ?thesis
    using discover_returns_first_complete[OF h1 h2 h3 h4 h5 h6 h7, of False] by simp
qed

text \<open>
  Claim C2, as stated, says that no fetcher is called once the accumulated record is
  complete. For \<open>pkg:github/expressjs/express\<close> the special case completes the record
  before the loop starts, and all five fetchers are called nevertheless, the paid search
  among them: the loop tests the completeness of each fetcher's own result, never that
  of the accumulated record.
\<close>

theorem complete_accumulator_counterexample:
  "github_special (github_release quiet_service)
       (snd (parse_purl ''pkg:github/expressjs/express''
               (PackageMetadata ''pkg:github/expressjs/express''))) =
     ((PackageMetadata ''pkg:github/expressjs/express'')
        \<lparr>ecosystem := Some ''github'', name := Some ''expressjs/express'',
         repo_url := Some ''https://github.com/expressjs/express''\<rparr>,
      [GithubReleaseApi ''expressjs/express''])
   \<and> is_complete
        ((PackageMetadata ''pkg:github/expressjs/express'')
           \<lparr>ecosystem := Some ''github'', name := Some ''expressjs/express'',
            repo_url := Some ''https://github.com/expressjs/express''\<rparr>)
   \<and> discover quiet_service ''pkg:github/expressjs/express'' False =
       (Inr ((PackageMetadata ''pkg:github/expressjs/express'')
               \<lparr>ecosystem := Some ''github'', name := Some ''expressjs/express'',
                repo_url := Some ''https://github.com/expressjs/express''\<rparr>),
        [GithubReleaseApi ''expressjs/express'', Provider ''deps.dev'',
         Provider ''clearlydefined'', Provider ''purl2src'', Provider ''upmex'',
         Provider ''serpapi''])"
  by (simp add: discover_def parse_purl_def startswith_def github_special_def go_special_def
      quiet_service_def sources_def fetch_deps_dev_def system_map_def fetch_purl2src_def
      fetch_upmex_def is_complete_def PackageMetadata_def)

lemma try_sources_none_complete:
  "none_complete ord m srcs \<Longrightarrow>
   try_sources ord m srcs = (Exhausted (accumulated ord m srcs), map fst srcs)"
proof (induction srcs arbitrary: m)
  case Nil
  show ?case by simp
next
  case (Cons a srcs)
  obtain n f where a: "a = (n, f)" by (cases a)
  from Cons.prems a have nc: "\<not> complete_contribution (f m)"
    and rest: "none_complete ord (absorb ord m (f m)) srcs" by simp_all
  from Cons.IH[OF rest] nc a show ?case
    by (auto simp: complete_contribution_def absorb_def
        split: fetch_outcome.splits option.splits)
qed

lemma try_sources_first_complete:
  "none_complete ord m pre \<Longrightarrow> f (accumulated ord m pre) = Returns (Some result) \<Longrightarrow>
   is_complete result \<Longrightarrow>
   try_sources ord m (pre @ (n, f) # post) =
     (Returned (result\<lparr>source := Some n\<rparr>), map fst pre @ [n])"
proof (induction pre arbitrary: m)
  case Nil
  then show ?case by simp
next
  case (Cons a pre)
  obtain n' f' where a: "a = (n', f')" by (cases a)
  from Cons.prems a have nc: "\<not> complete_contribution (f' m)"
    and rest: "none_complete ord (absorb ord m (f' m)) pre"
    and acc: "f (accumulated ord (absorb ord m (f' m)) pre) = Returns (Some result)"
    by simp_all
  from Cons.IH[OF rest acc Cons.prems(3)] nc a show ?case
    by (auto simp: complete_contribution_def absorb_def
        split: fetch_outcome.splits option.splits)
qed

lemma none_complete_or_first:
  "none_complete ord m srcs
   \<or> (\<exists>pre n f post result.
         srcs = pre @ (n, f) # post \<and> none_complete ord m pre
         \<and> f (accumulated ord m pre) = Returns (Some result) \<and> is_complete result)"
proof (induction srcs arbitrary: m)
  case Nil
  show ?case by simp
next
  case (Cons a srcs)
  obtain n f where a: "a = (n, f)" by (cases a)
  show ?case
  proof (cases "complete_contribution (f m)")
    case True
    then obtain result where "f m = Returns (Some result)" "is_complete result"
      by (auto simp: complete_contribution_def split: fetch_outcome.splits option.splits)
    then have "a # srcs = [] @ (n, f) # srcs \<and> none_complete ord m []
         \<and> f (accumulated ord m []) = Returns (Some result) \<and> is_complete result"
      using a by simp
    then show ?thesis by blast
  next
    case False
    from Cons.IH[of "absorb ord m (f m)"] show ?thesis
    proof
      assume "none_complete ord (absorb ord m (f m)) srcs"
      with False a show ?thesis by simp
    next
      assume "\<exists>pre n f' post result.
         srcs = pre @ (n, f') # post \<and> none_complete ord (absorb ord m (f m)) pre
         \<and> f' (accumulated ord (absorb ord m (f m)) pre) = Returns (Some result)
         \<and> is_complete result"
      then obtain pre n' f' post result where
        h: "srcs = pre @ (n', f') # post" "none_complete ord (absorb ord m (f m)) pre"
           "f' (accumulated ord (absorb ord m (f m)) pre) = Returns (Some result)"
           "is_complete result"
        by blast
      have "a # srcs = (a # pre) @ (n', f') # post \<and> none_complete ord m (a # pre)
         \<and> f' (accumulated ord m (a # pre)) = Returns (Some result) \<and> is_complete result"
        using h False a by simp
      then show ?thesis by blast
    qed
  qed
qed

lemma try_sources_exhausted_iff:
  "(try_sources ord m srcs = (Exhausted acc, called)) =
     (none_complete ord m srcs \<and> acc = accumulated ord m srcs \<and> called = map fst srcs)"
proof
  assume e: "try_sources ord m srcs = (Exhausted acc, called)"
  have "none_complete ord m srcs"
  proof (rule ccontr)
    assume "\<not> none_complete ord m srcs"
    with none_complete_or_first[of ord m srcs] obtain pre n f post result where
      "srcs = pre @ (n, f) # post" "none_complete ord m pre"
      "f (accumulated ord m pre) = Returns (Some result)" "is_complete result"
      by blast
    with try_sources_first_complete[of ord m pre f result n post] e show False by simp
  qed
  with try_sources_none_complete[of ord m srcs] e
  show "none_complete ord m srcs \<and> acc = accumulated ord m srcs \<and> called = map fst srcs"
    by simp
next
  assume "none_complete ord m srcs \<and> acc = accumulated ord m srcs \<and> called = map fst srcs"
  with try_sources_none_complete[of ord m srcs]
  show "try_sources ord m srcs = (Exhausted acc, called)" by simp
qed

text \<open>
  Claim C2, amended. The chain stops as soon as, and only when, a fetcher returns a
  record that is itself complete. From any accumulated record \<open>m\<close>, complete or not:
  when no provider of the list, called with the record accumulated before it, gives a
  complete contribution, every fetcher of the list is called and the loop ends with
  the accumulated record; when the providers \<open>pre\<close> give no complete contribution and
  the next one, called with the record accumulated over \<open>pre\<close>, returns a complete
  record, that record is returned with its source set and the fetchers called are
  those of \<open>pre\<close> and this one, none of \<open>post\<close>; and every list of providers is in one of
  these two cases.
\<close>

theorem try_sources_stops_exactly_on_complete_result:
  "(none_complete ord m srcs \<longrightarrow>
      try_sources ord m srcs = (Exhausted (accumulated ord m srcs), map fst srcs))
   \<and> (none_complete ord m pre \<and> f (accumulated ord m pre) = Returns (Some result)
        \<and> is_complete result \<longrightarrow>
      try_sources ord m (pre @ (n, f) # post) =
        (Returned (result\<lparr>source := Some n\<rparr>), map fst pre @ [n]))
   \<and> (none_complete ord m srcs
       \<or> (\<exists>pre n f post result.
             srcs = pre @ (n, f) # post \<and> none_complete ord m pre
             \<and> f (accumulated ord m pre) = Returns (Some result) \<and> is_complete result))"
  using try_sources_none_complete[of ord m srcs]
    try_sources_first_complete[of ord m pre f result n post]
    none_complete_or_first[of ord m srcs]
  by blast

theorem try_sources_stops_exactly_on_complete_result_witness:
  "is_complete
     ((PackageMetadata ''pkg:github/expressjs/express'')
        \<lparr>ecosystem := Some ''github'', name := Some ''expressjs/express'',
         repo_url := Some ''https://github.com/expressjs/express''\<rparr>)
   \<and> try_sources remdups
       ((PackageMetadata ''pkg:github/expressjs/express'')
          \<lparr>ecosystem := Some ''github'', name := Some ''expressjs/express'',
           repo_url := Some ''https://github.com/expressjs/express''\<rparr>)
       (sources quiet_service) =
     (Exhausted ((PackageMetadata ''pkg:github/expressjs/express'')
          \<lparr>ecosystem := Some ''github'', name := Some ''expressjs/express'',
           repo_url := Some ''https://github.com/expressjs/express''\<rparr>),
      [''deps.dev'', ''clearlydefined'', ''purl2src'', ''upmex'', ''serpapi''])
   \<and> try_sources remdups
       ((PackageMetadata ''pkg:npm/express'')
          \<lparr>ecosystem := Some ''npm'', name := Some ''express''\<rparr>)
       ([(''deps.dev'', deps_dev fallback_service)]
        @ (''clearlydefined'', clearlydefined fallback_service)
          # [(''purl2src'', purl2src fallback_service), (''upmex'', upmex fallback_service)]) =
     (Returned (express_record\<lparr>source := Some ''clearlydefined''\<rparr>),
      [''deps.dev'', ''clearlydefined''])"
proof -
  let ?G = "(PackageMetadata ''pkg:github/expressjs/express'')
        \<lparr>ecosystem := Some ''github'', name := Some ''expressjs/express'',
         repo_url := Some ''https://github.com/expressjs/express''\<rparr>"
  let ?M = "(PackageMetadata ''pkg:npm/express'')
          \<lparr>ecosystem := Some ''npm'', name := Some ''express''\<rparr>"
  have g: "is_complete ?G"
    by (simp add: is_complete_def)
  have q1: "none_complete remdups ?G (sources quiet_service)"
    by (simp add: quiet_service_def sources_def fetch_deps_dev_def system_map_def
        fetch_purl2src_def fetch_upmex_def complete_contribution_def absorb_def)
  have q2: "accumulated remdups ?G (sources quiet_service) = ?G"
    by (simp add: quiet_service_def sources_def fetch_deps_dev_def system_map_def
        fetch_purl2src_def fetch_upmex_def absorb_def)
  have q3: "map fst (sources quiet_service) =
              [''deps.dev'', ''clearlydefined'', ''purl2src'', ''upmex'', ''serpapi'']"
    by (simp add: quiet_service_def sources_def)
  have f1: "none_complete remdups ?M [(''deps.dev'', deps_dev fallback_service)]"
    by (simp add: fallback_service_def complete_contribution_def)
  have f2: "clearlydefined fallback_service
              (accumulated remdups ?M [(''deps.dev'', deps_dev fallback_service)]) =
            Returns (Some express_record)"
    by (simp add: fallback_service_def)
  have f3: "is_complete express_record"
    by (simp add: is_complete_def express_record_def)
  show ?thesis
    using g q1 q2 q3 f1 f2 f3
      try_sources_stops_exactly_on_complete_result[of remdups ?G "sources quiet_service"]
      try_sources_stops_exactly_on_complete_result[of remdups ?M _
        "[(''deps.dev'', deps_dev fallback_service)]" "clearlydefined fallback_service"
        express_record "''clearlydefined''"
        "[(''purl2src'', purl2src fallback_service), (''upmex'', upmex fallback_service)]"]
    by simp
qed

text \<open>
  Claim C4. Suppose the request parses and passes the special cases, and the loop runs
  to the end of the list with an accumulated record that is not complete. Without
  \<open>allow_partial\<close>, \<open>discover\<close> raises a \<open>ValueError\<close> whose message ends with the list of
  the missing fields; that list has \<open>ecosystem\<close>, \<open>name\<close> or \<open>repo_url\<close> exactly when the
  field is empty, and nothing else. With \<open>allow_partial\<close>, the same request returns the
  accumulated record.
\<close>

theorem discover_exhausted_incomplete:
  assumes "parse_purl p (PackageMetadata p) = (True, m0)"
    and "github_special (github_release svc) m0 = (m1, c1)"
    and "go_special m1 = Inr m2"
    and "try_sources (set_iteration svc) m2 (sources svc) = (Exhausted m3, called)"
    and "\<not> is_complete m3"
  shows "discover svc p False =
           (Inl (ValueError (''Could not discover complete metadata for '' @ p @ ''. Missing: ''
                             @ join '', '' (missing_fields m3))),
            c1 @ map Provider called)
       \<and> (''ecosystem'' \<in> set (missing_fields m3)) = (\<not> truthy (ecosystem m3))
       \<and> (''name'' \<in> set (missing_fields m3)) = (\<not> truthy (name m3))
       \<and> (''repo_url'' \<in> set (missing_fields m3)) = (\<not> truthy (repo_url m3))
       \<and> set (missing_fields m3) \<subseteq> {''ecosystem'', ''name'', ''repo_url''}
       \<and> discover svc p True = (Inr m3, c1 @ map Provider called)"
  using assms by (simp add: discover_def incomplete_message_def missing_fields_mem)

theorem discover_exhausted_incomplete_witness:
  "discover quiet_service ''pkg:npm/nonexistent'' False =
     (Inl (ValueError
        ''Could not discover complete metadata for pkg:npm/nonexistent. Missing: repo_url''),
      [Provider ''deps.dev'', Provider ''clearlydefined'', Provider ''purl2src'',
       Provider ''upmex'', Provider ''serpapi''])
   \<and> discover quiet_service ''pkg:npm/nonexistent'' True =
     (Inr ((PackageMetadata ''pkg:npm/nonexistent'')
             \<lparr>ecosystem := Some ''npm'', name := Some ''nonexistent''\<rparr>),
      [Provider ''deps.dev'', Provider ''clearlydefined'', Provider ''purl2src'',
       Provider ''upmex'', Provider ''serpapi''])"
proof -
  let ?M = "(PackageMetadata ''pkg:npm/nonexistent'')
              \<lparr>ecosystem := Some ''npm'', name := Some ''nonexistent''\<rparr>"
  have h1: "parse_purl ''pkg:npm/nonexistent'' (PackageMetadata ''pkg:npm/nonexistent'') = (True, ?M)"
    by (simp add: parse_purl_def startswith_def)
  have h2: "github_special (github_release quiet_service) ?M = (?M, [])"
    by (simp add: github_special_def)
  have h3: "go_special ?M = Inr ?M"
    by (simp add: go_special_def)
  have h4: "try_sources (set_iteration quiet_service) ?M (sources quiet_service) =
              (Exhausted ?M, [''deps.dev'', ''clearlydefined'', ''purl2src'', ''upmex'', ''serpapi''])"
    by (simp add: quiet_service_def sources_def fetch_deps_dev_def system_map_def
        fetch_purl2src_def fetch_upmex_def PackageMetadata_def)
  have h5: "\<not> is_complete ?M"
    by (simp add: is_complete_def PackageMetadata_def)
  have mf: "missing_fields ?M = [''repo_url'']"
    by (simp add: missing_fields_def PackageMetadata_def)
  show ?thesis
    using discover_exhausted_incomplete[OF h1 h2 h3 h4 h5] by (simp add: mf)
qed

subsection \<open>Merging\<close>

lemma py_or_idem [simp]: "py_or a a = a"
  by (simp add: py_or_def)

lemma set_order_remdups: "set_order remdups"
  by (simp add: set_order_def)

text \<open>
  Claim C5, as stated, says that \<open>merge(X, X) == X\<close> for every record. The maintainers
  are a list, and the merge rebuilds it from a set: a record that lists a maintainer
  twice comes back with the maintainer listed once, whatever the iteration order.
\<close>

theorem merge_metadata_idempotent_counterexample:
  "merge_metadata remdups
     ((PackageMetadata ''pkg:npm/express'')\<lparr>maintainers := [''alice'', ''alice'']\<rparr>)
     ((PackageMetadata ''pkg:npm/express'')\<lparr>maintainers := [''alice'', ''alice'']\<rparr>)
   \<noteq> (PackageMetadata ''pkg:npm/express'')\<lparr>maintainers := [''alice'', ''alice'']\<rparr>
   \<and> length (maintainers (merge_metadata remdups
     ((PackageMetadata ''pkg:npm/express'')\<lparr>maintainers := [''alice'', ''alice'']\<rparr>)
     ((PackageMetadata ''pkg:npm/express'')\<lparr>maintainers := [''alice'', ''alice'']\<rparr>))) = 1"
  by (simp add: merge_metadata_def PackageMetadata_def)

text \<open>
  Claim C5, amended. For every iteration order of sets: \<open>merge(X, X)\<close> is \<open>X\<close> in the
  \<open>purl\<close> and in every scalar field, and its maintainers are those of \<open>X\<close> with duplicates
  removed (the same members; as many entries as \<open>X\<close> has when \<open>X\<close> lists nobody twice).
  For every pair of records, each scalar field of the merge is the base's value when
  that is non-empty, the candidate's otherwise, and the maintainers of the merge are
  the union of both lists, each member once.
\<close>

theorem merge_metadata_fill_missing:
  assumes "set_order ord"
  shows "(merge_metadata ord X X)\<lparr>maintainers := maintainers X\<rparr> = X
       \<and> set (maintainers (merge_metadata ord X X)) = set (maintainers X)
       \<and> (distinct (maintainers X) \<longrightarrow>
            length (maintainers (merge_metadata ord X X)) = length (maintainers X))
       \<and> purl (merge_metadata ord base new) = purl base
       \<and> ecosystem (merge_metadata ord base new) =
            (if truthy (ecosystem base) then ecosystem base else ecosystem new)
       \<and> name (merge_metadata ord base new) =
            (if truthy (name base) then name base else name new)
       \<and> version (merge_metadata ord base new) =
            (if truthy (version base) then version base else version new)
       \<and> repo_url (merge_metadata ord base new) =
            (if truthy (repo_url base) then repo_url base else repo_url new)
       \<and> license (merge_metadata ord base new) =
            (if truthy (license base) then license base else license new)
       \<and> description (merge_metadata ord base new) =
            (if truthy (description base) then description base else description new)
       \<and> homepage (merge_metadata ord base new) =
            (if truthy (homepage base) then homepage base else homepage new)
       \<and> latest_version (merge_metadata ord base new) =
            (if truthy (latest_version base) then latest_version base else latest_version new)
       \<and> source (merge_metadata ord base new) =
            (if truthy (source base) then source base else source new)
       \<and> set (maintainers (merge_metadata ord base new)) =
            set (maintainers base) \<union> set (maintainers new)
       \<and> distinct (maintainers (merge_metadata ord base new))"
proof -
  have o: "\<And>xs. set (ord xs) = set xs" "\<And>xs. distinct (ord xs)"
    using assms by (simp_all add: set_order_def)
  have idem: "(merge_metadata ord X X)\<lparr>maintainers := maintainers X\<rparr> = X"
    by (simp add: merge_metadata_def)
  have mem: "set (maintainers (merge_metadata ord X X)) = set (maintainers X)"
    by (simp add: merge_metadata_def o)
  have len: "distinct (maintainers X) \<longrightarrow>
            length (maintainers (merge_metadata ord X X)) = length (maintainers X)"
  proof
    assume d: "distinct (maintainers X)"
    have "length (maintainers (merge_metadata ord X X)) = card (set (maintainers X))"
      using distinct_card[OF o(2), of "maintainers X @ maintainers X"]
      by (simp add: merge_metadata_def o)
    also have "\<dots> = length (maintainers X)"
      using d by (rule distinct_card)
    finally show "length (maintainers (merge_metadata ord X X)) = length (maintainers X)" .
  qed
  have fields: "purl (merge_metadata ord base new) = purl base
       \<and> ecosystem (merge_metadata ord base new) =
            (if truthy (ecosystem base) then ecosystem base else ecosystem new)
       \<and> name (merge_metadata ord base new) =
            (if truthy (name base) then name base else name new)
       \<and> version (merge_metadata ord base new) =
            (if truthy (version base) then version base else version new)
       \<and> repo_url (merge_metadata ord base new) =
            (if truthy (repo_url base) then repo_url base else repo_url new)
       \<and> license (merge_metadata ord base new) =
            (if truthy (license base) then license base else license new)
       \<and> description (merge_metadata ord base new) =
            (if truthy (description base) then description base else description new)
       \<and> homepage (merge_metadata ord base new) =
            (if truthy (homepage base) then homepage base else homepage new)
       \<and> latest_version (merge_metadata ord base new) =
            (if truthy (latest_version base) then latest_version base else latest_version new)
       \<and> source (merge_metadata ord base new) =
            (if truthy (source base) then source base else source new)"
    by (simp add: merge_metadata_def py_or_def)
  have un: "set (maintainers (merge_metadata ord base new)) =
            set (maintainers base) \<union> set (maintainers new)"
    by (simp add: merge_metadata_def o)
  have di: "distinct (maintainers (merge_metadata ord base new))"
    by (simp add: merge_metadata_def o)
  show ?thesis
    using idem mem len fields un di by blast
qed

theorem merge_metadata_fill_missing_witness:
  "license (merge_metadata remdups
       ((PackageMetadata ''pkg:npm/express'')\<lparr>ecosystem := Some ''npm'', license := Some ''MIT'',
           maintainers := [''alice@example.com'']\<rparr>)
       ((PackageMetadata ''pkg:npm/express'')\<lparr>license := Some ''Apache-2.0'',
           maintainers := [''bob@example.com'', ''alice@example.com'']\<rparr>)) = Some ''MIT''
   \<and> set (maintainers (merge_metadata remdups
       ((PackageMetadata ''pkg:npm/express'')\<lparr>ecosystem := Some ''npm'', license := Some ''MIT'',
           maintainers := [''alice@example.com'']\<rparr>)
       ((PackageMetadata ''pkg:npm/express'')\<lparr>license := Some ''Apache-2.0'',
           maintainers := [''bob@example.com'', ''alice@example.com'']\<rparr>))) =
       {''alice@example.com'', ''bob@example.com''}
   \<and> merge_metadata remdups express_record express_record = express_record"
proof -
  have e: "maintainers express_record = []"
    by (simp add: express_record_def PackageMetadata_def)
  have m: "maintainers (merge_metadata remdups express_record express_record) = []"
    by (simp add: merge_metadata_def e)
  have i: "(merge_metadata remdups express_record express_record)
             \<lparr>maintainers := maintainers express_record\<rparr> = express_record"
    using merge_metadata_fill_missing[OF set_order_remdups, of express_record] by blast
  have "merge_metadata remdups express_record express_record = express_record"
    using i m e by (metis package_metadata.update_convs(10) package_metadata.surjective)
  then show ?thesis
    using merge_metadata_fill_missing[OF set_order_remdups, of express_record
        "(PackageMetadata ''pkg:npm/express'')\<lparr>ecosystem := Some ''npm'', license := Some ''MIT'',
           maintainers := [''alice@example.com'']\<rparr>"
        "(PackageMetadata ''pkg:npm/express'')\<lparr>license := Some ''Apache-2.0'',
           maintainers := [''bob@example.com'', ''alice@example.com'']\<rparr>"]
    by (auto simp: PackageMetadata_def)
qed

subsection \<open>Repository links\<close>

text \<open>
  Claim C6 says that the stored repository URL is the link with a \<open>git+\<close> prefix and a
  trailing \<open>.git\<close> suffix stripped, and the code's own comment says the same. The code
  deletes every occurrence of \<open>git+\<close> and of \<open>.git\<close> with \<open>str.replace\<close>, so the link to a
  repository whose name contains \<open>.git\<close>, such as a \<open>github.io\<close> site, is damaged. The
  evaluation below is the code on such a link, alone and inside the fetcher.
\<close>

theorem clean_repo_url_deletes_inner_git:
  "clean_repo_url ''https://github.com/octocat/octocat.github.io'' =
     ''https://github.com/octocat/octocathub.io''
   \<and> fetch_deps_dev
       (\<lambda>system pkg. HttpStatus 200 (Some [''1.0.0'']))
       (\<lambda>system pkg v. HttpStatus 200
          \<lparr>vd_links = Some [(''SOURCE_REPO'', ''https://github.com/octocat/octocat.github.io'')],
           vd_licenses = Some [''MIT'']\<rparr>)
       ((PackageMetadata ''pkg:npm/octocat-site'')
          \<lparr>ecosystem := Some ''npm'', name := Some ''octocat-site''\<rparr>) =
     Returns (Some ((PackageMetadata ''pkg:npm/octocat-site'')
        \<lparr>ecosystem := Some ''npm'', name := Some ''octocat-site'',
         repo_url := Some ''https://github.com/octocat/octocathub.io'',
         license := Some ''MIT'', latest_version := Some ''1.0.0''\<rparr>))"
  by (simp add: clean_repo_url_def cut_paths_def startswith_def fetch_deps_dev_def
      system_map_def apply_version_data_def is_repo_link_def lower_def lower_char_def
      py_or_def PackageMetadata_def)

text \<open>The link of the scenario in the specification is cleaned as expected.\<close>

lemma clean_repo_url_express:
  "clean_repo_url ''git+https://github.com/expressjs/express.git'' =
     ''https://github.com/expressjs/express''"
  by (simp add: clean_repo_url_def cut_paths_def startswith_def)

lemma discover_express:
  "discover express_service ''pkg:npm/express@4.18.0'' False =
     (Inr ((PackageMetadata ''pkg:npm/express@4.18.0'')
             \<lparr>ecosystem := Some ''npm'', name := Some ''express'', version := Some ''4.18.0'',
              repo_url := Some ''https://github.com/expressjs/express'',
              license := Some ''MIT'', latest_version := Some ''4.18.2'',
              source := Some ''deps.dev''\<rparr>),
      [Provider ''deps.dev''])"
  by (simp add: discover_def parse_purl_def startswith_def github_special_def go_special_def
      express_service_def quiet_service_def sources_def fetch_deps_dev_def system_map_def
      apply_version_data_def is_repo_link_def lower_def lower_char_def clean_repo_url_def
      cut_paths_def py_or_def is_complete_def PackageMetadata_def)

subsection \<open>The special case for \<open>pkg:github\<close>\<close>

text \<open>
  For a name with a \<open>/\<close>, the repository URL is written from the name whatever the
  release API does, and a call that raises or answers with another status than 200
  changes nothing else.
\<close>

lemma github_special_repo_url:
  assumes "ecosystem m = Some ''github''" and "name m = Some n" and "CHR ''/'' \<in> set n"
  shows "repo_url (fst (github_special release m)) = Some (''https://github.com/'' @ n)"
    and "snd (github_special release m) = [GithubReleaseApi n]"
    and "release n = ReleaseRaises \<or> (\<exists>code t. release n = ReleaseStatus code t \<and> code \<noteq> 200)
         \<Longrightarrow> github_special release m =
               (m\<lparr>repo_url := Some (''https://github.com/'' @ n)\<rparr>, [GithubReleaseApi n])"
  using assms by (auto simp: github_special_def Let_def split: release_response.splits)

text \<open>
  Claim C9 says that the release call sets the latest version to the tag with a leading
  \<open>v\<close> prefix stripped, and the code's comment says the same (\<open>v1.14.3\<close> gives
  \<open>1.14.3\<close>). The code calls \<open>lstrip("v")\<close>, which drops every leading \<open>v\<close>: the evaluation
  below is the code on the tag \<open>vv1.0\<close>, which loses both.
\<close>

theorem github_special_strips_every_leading_v:
  "github_special (\<lambda>n. ReleaseStatus 200 (Some ''vv1.0''))
     ((PackageMetadata ''pkg:github/expressjs/express'')
        \<lparr>ecosystem := Some ''github'', name := Some ''expressjs/express''\<rparr>) =
     ((PackageMetadata ''pkg:github/expressjs/express'')
        \<lparr>ecosystem := Some ''github'', name := Some ''expressjs/express'',
         repo_url := Some ''https://github.com/expressjs/express'',
         latest_version := Some ''1.0''\<rparr>,
      [GithubReleaseApi ''expressjs/express''])"
  by (simp add: github_special_def lstrip_v_def PackageMetadata_def)

end
